theory Spec2Isabelle
  imports Main "HOL-Library.Word" "HOL-Library.Signed_Division"
begin

unbundle bit_operations_syntax

section \<open>Integral types and their values\<close>

text \<open>
  The functions of \<^verbatim>\<open>trapping.h\<close> are templates over integral types. A type argument is
  modelled by a descriptor holding what the code asks of it: \<^verbatim>\<open>std::is_signed<T>::value\<close>
  and \<^verbatim>\<open>sizeof(T)\<close>. A value of such a type is the mathematical integer it denotes
  (two's complement, as the source assumes), and every conversion writes its wrap-around out.
\<close>

record ity =
  is_signed :: bool
  sizeof :: nat

definition int8_t :: ity where "int8_t = \<lparr>is_signed = True, sizeof = 1\<rparr>"
definition int16_t :: ity where "int16_t = \<lparr>is_signed = True, sizeof = 2\<rparr>"
definition int32_t :: ity where "int32_t = \<lparr>is_signed = True, sizeof = 4\<rparr>"
definition int64_t :: ity where "int64_t = \<lparr>is_signed = True, sizeof = 8\<rparr>"
definition uint8_t :: ity where "uint8_t = \<lparr>is_signed = False, sizeof = 1\<rparr>"
definition uint16_t :: ity where "uint16_t = \<lparr>is_signed = False, sizeof = 2\<rparr>"
definition uint32_t :: ity where "uint32_t = \<lparr>is_signed = False, sizeof = 4\<rparr>"
definition uint64_t :: ity where "uint64_t = \<lparr>is_signed = False, sizeof = 8\<rparr>"

text \<open>The type of the literals \<^verbatim>\<open>0\<close>, \<^verbatim>\<open>1\<close>, \<^verbatim>\<open>-1\<close> and the type of \<^verbatim>\<open>sizeof\<close>
  expressions, on the usual LP64 platform.\<close>

definition int_t :: ity where "int_t = int32_t"
definition size_t :: ity where "size_t = uint64_t"

text \<open>\<^verbatim>\<open>std::is_integral<T>::value\<close>, which every template of the source asserts. The
  types considered are the signed and unsigned two's complement types of 1, 2, 4 and 8
  bytes, those of \<^verbatim>\<open><stdint.h>\<close>; \<^verbatim>\<open>bool\<close> is left out.\<close>

definition is_integral :: "ity \<Rightarrow> bool" where
  "is_integral T = (sizeof T = 1 \<or> sizeof T = 2 \<or> sizeof T = 4 \<or> sizeof T = 8)"

definition CHAR_BIT :: nat where "CHAR_BIT = 8"

definition bits :: "ity \<Rightarrow> nat" where
  "bits T = CHAR_BIT * sizeof T"

text \<open>\<^verbatim>\<open>std::numeric_limits<T>::max()\<close> and \<^verbatim>\<open>min()\<close>.\<close>

definition numeric_max :: "ity \<Rightarrow> int" where
  "numeric_max T = (if is_signed T then 2 ^ (bits T - 1) - 1 else 2 ^ bits T - 1)"

definition numeric_min :: "ity \<Rightarrow> int" where
  "numeric_min T = (if is_signed T then - (2 ^ (bits T - 1)) else 0)"

definition representable :: "ity \<Rightarrow> int \<Rightarrow> bool" where
  "representable T v = (numeric_min T \<le> v \<and> v \<le> numeric_max T)"

text \<open>\<^verbatim>\<open>static_cast<R>(v)\<close>: the value modulo \<open>2 ^ bits R\<close>, read in \<open>R\<close>.\<close>

definition static_cast :: "ity \<Rightarrow> int \<Rightarrow> int" where
  "static_cast R v =
     (if is_signed R then (v + 2 ^ (bits R - 1)) mod 2 ^ bits R - 2 ^ (bits R - 1)
      else v mod 2 ^ bits R)"

definition make_unsigned :: "ity \<Rightarrow> ity" where
  "make_unsigned T = T\<lparr>is_signed := False\<rparr>"

subsection \<open>Integral promotion and the usual arithmetic conversions\<close>

text \<open>A type narrower than \<^verbatim>\<open>int\<close> is promoted to \<^verbatim>\<open>int\<close>, which holds all its values.\<close>

definition promote :: "ity \<Rightarrow> ity" where
  "promote T = (if sizeof T < sizeof int_t then int_t else T)"

text \<open>The common type of two promoted operands: with equal signedness the wider one;
  otherwise the unsigned one unless the signed one is strictly wider.\<close>

definition usual_arithmetic_conversion :: "ity \<Rightarrow> ity \<Rightarrow> ity" where
  "usual_arithmetic_conversion A B =
     (if is_signed A = is_signed B then (if sizeof B \<le> sizeof A then A else B)
      else if is_signed A then (if sizeof A \<le> sizeof B then B else A)
      else (if sizeof B \<le> sizeof A then A else B))"

definition common_type :: "ity \<Rightarrow> ity \<Rightarrow> ity" where
  "common_type A B = usual_arithmetic_conversion (promote A) (promote B)"

text \<open>The built-in comparisons \<^verbatim>\<open>a > b\<close>, \<^verbatim>\<open>a < b\<close>, \<^verbatim>\<open>a == b\<close> of an \<open>A\<close> with a \<open>B\<close>:
  both operands are converted to the common type first.\<close>

definition cmp_gt :: "ity \<Rightarrow> int \<Rightarrow> ity \<Rightarrow> int \<Rightarrow> bool" where
  "cmp_gt A a B b = (let C = common_type A B in static_cast C b < static_cast C a)"

definition cmp_lt :: "ity \<Rightarrow> int \<Rightarrow> ity \<Rightarrow> int \<Rightarrow> bool" where
  "cmp_lt A a B b = (let C = common_type A B in static_cast C a < static_cast C b)"

definition cmp_eq :: "ity \<Rightarrow> int \<Rightarrow> ity \<Rightarrow> int \<Rightarrow> bool" where
  "cmp_eq A a B b = (let C = common_type A B in static_cast C a = static_cast C b)"

section \<open>Primitive checking operations\<close>

text \<open>
  \<^verbatim>\<open>trap()\<close> and \<^verbatim>\<open>NOTREACHED()\<close> come from \<^verbatim>\<open>expectations.h\<close>; each is an outcome of
  its own here. A third outcome, \<open>IllFormed\<close>, stands for a member function whose body does
  not compile for the type it is instantiated with: a program that uses it is rejected, and
  nothing runs. A probe returns its \<^verbatim>\<open>bool\<close> together with the content of \<^verbatim>\<open>*result\<close>
  after the call; the content before the call is the last argument.
\<close>

datatype error = Trap | NotReached | IllFormed

definition cast_truncate :: "ity \<Rightarrow> ity \<Rightarrow> int \<Rightarrow> int \<Rightarrow> error + bool \<times> int" where
  "cast_truncate T R val result =
     (let T_signed = is_signed T; R_signed = is_signed R;
          T_size = sizeof T; R_size = sizeof R;
          STATIC_CAST_AND_RETURN = Inr (False, static_cast R val)
      in
      if T_signed \<and> R_signed then
        (if T_size = R_size then STATIC_CAST_AND_RETURN
         else if T_size > R_size then
           (if cmp_gt T val R (numeric_max R) then Inr (True, result)
            else STATIC_CAST_AND_RETURN)
         else if T_size < R_size then STATIC_CAST_AND_RETURN
         else Inl NotReached)
      else if \<not> T_signed \<and> \<not> R_signed then
        (if T_size = R_size then STATIC_CAST_AND_RETURN
         else if T_size > R_size then
           (if cmp_gt T val R (numeric_max R) then Inr (True, result)
            else STATIC_CAST_AND_RETURN)
         else if T_size < R_size then STATIC_CAST_AND_RETURN
         else Inl NotReached)
      else if T_signed \<and> \<not> R_signed then
        (if cmp_lt T val int_t 0 then Inr (True, result)
         else if T_size = R_size then STATIC_CAST_AND_RETURN
         else if T_size > R_size then
           (let U = make_unsigned T; unsigned_value = static_cast U val
            in if cmp_gt U unsigned_value R (numeric_max R) then Inr (True, result)
               else STATIC_CAST_AND_RETURN)
         else if T_size < R_size then STATIC_CAST_AND_RETURN
         else Inl NotReached)
      else if \<not> T_signed \<and> R_signed then
        (if cmp_gt T val R (numeric_max R) then Inr (True, result)
         else if T_size = R_size then STATIC_CAST_AND_RETURN
         else if T_size > R_size then STATIC_CAST_AND_RETURN
         else if T_size < R_size then STATIC_CAST_AND_RETURN
         else Inl NotReached)
      else Inl NotReached)"


subsection \<open>The built-in operators on converted operands\<close>

text \<open>
  A built-in binary operator converts both operands to the common type and computes there;
  a shift and unary minus compute in the promoted type of the left operand. Division
  truncates towards zero and the remainder takes the sign of the dividend. The source
  assumes two's complement, so a left shift keeps the low bits of the shifted value.
\<close>

definition divide_op :: "ity \<Rightarrow> int \<Rightarrow> ity \<Rightarrow> int \<Rightarrow> int" where
  "divide_op A a B b = (let C = common_type A B in static_cast C a sdiv static_cast C b)"

definition modulo_op :: "ity \<Rightarrow> int \<Rightarrow> ity \<Rightarrow> int \<Rightarrow> int" where
  "modulo_op A a B b = (let C = common_type A B in static_cast C a smod static_cast C b)"

definition minus_op :: "ity \<Rightarrow> int \<Rightarrow> ity \<Rightarrow> int \<Rightarrow> int" where
  "minus_op A a B b =
     (let C = common_type A B in static_cast C (static_cast C a - static_cast C b))"

definition negate_op :: "ity \<Rightarrow> int \<Rightarrow> int" where
  "negate_op A a = (let P = promote A in static_cast P (- static_cast P a))"

definition or_op :: "ity \<Rightarrow> int \<Rightarrow> ity \<Rightarrow> int \<Rightarrow> int" where
  "or_op A a B b = (let C = common_type A B in static_cast C a OR static_cast C b)"

definition and_op :: "ity \<Rightarrow> int \<Rightarrow> ity \<Rightarrow> int \<Rightarrow> int" where
  "and_op A a B b = (let C = common_type A B in static_cast C a AND static_cast C b)"

definition xor_op :: "ity \<Rightarrow> int \<Rightarrow> ity \<Rightarrow> int \<Rightarrow> int" where
  "xor_op A a B b = (let C = common_type A B in static_cast C a XOR static_cast C b)"

definition shift_left_op :: "ity \<Rightarrow> int \<Rightarrow> int \<Rightarrow> int" where
  "shift_left_op A a n = (let P = promote A in static_cast P (push_bit (nat n) (static_cast P a)))"

definition shift_right_op :: "ity \<Rightarrow> int \<Rightarrow> int \<Rightarrow> int" where
  "shift_right_op A a n = (let P = promote A in drop_bit (nat n) (static_cast P a))"

subsection \<open>The overflow probes\<close>

text \<open>
  Modelled from the spec: the compiler intrinsics \<^verbatim>\<open>__builtin_add_overflow\<close>,
  \<^verbatim>\<open>__builtin_sub_overflow\<close> and \<^verbatim>\<open>__builtin_mul_overflow\<close>, which the source calls
  and does not define. The spec has the probes report failure exactly when the
  mathematically exact result lies outside the range of \<open>R\<close>; that is the contract of the
  intrinsics, which take both operands at infinite precision, store the exact result
  converted to the type \<^verbatim>\<open>*result\<close> has, and return whether the stored value differs
  from the exact one. They do not go through \<^verbatim>\<open>cast_truncate\<close>.
\<close>

definition builtin_add_overflow :: "ity \<Rightarrow> int \<Rightarrow> int \<Rightarrow> bool \<times> int" where
  "builtin_add_overflow R x y =
     (let exact = x + y; stored = static_cast R exact in (stored \<noteq> exact, stored))"

definition builtin_sub_overflow :: "ity \<Rightarrow> int \<Rightarrow> int \<Rightarrow> bool \<times> int" where
  "builtin_sub_overflow R x y =
     (let exact = x - y; stored = static_cast R exact in (stored \<noteq> exact, stored))"

definition builtin_mul_overflow :: "ity \<Rightarrow> int \<Rightarrow> int \<Rightarrow> bool \<times> int" where
  "builtin_mul_overflow R x y =
     (let exact = x * y; stored = static_cast R exact in (stored \<noteq> exact, stored))"

text \<open>The three probes pass their arguments on; \<^verbatim>\<open>*result\<close> is written in every case.\<close>

definition add_overflow :: "ity \<Rightarrow> ity \<Rightarrow> ity \<Rightarrow> int \<Rightarrow> int \<Rightarrow> bool \<times> int" where
  "add_overflow T U R x y = builtin_add_overflow R x y"

definition sub_overflow :: "ity \<Rightarrow> ity \<Rightarrow> ity \<Rightarrow> int \<Rightarrow> int \<Rightarrow> bool \<times> int" where
  "sub_overflow T U R x y = builtin_sub_overflow R x y"

definition mul_overflow :: "ity \<Rightarrow> ity \<Rightarrow> ity \<Rightarrow> int \<Rightarrow> int \<Rightarrow> bool \<times> int" where
  "mul_overflow T U R x y = builtin_mul_overflow R x y"

definition divide_min_by_negative_1 :: "ity \<Rightarrow> ity \<Rightarrow> int \<Rightarrow> int \<Rightarrow> bool" where
  "divide_min_by_negative_1 T U dividend divisor =
     (is_signed U \<and> cmp_eq T dividend T (numeric_min T) \<and> cmp_eq U divisor int_t (- 1))"

definition div_overflow :: "ity \<Rightarrow> ity \<Rightarrow> ity \<Rightarrow> int \<Rightarrow> int \<Rightarrow> int \<Rightarrow> error + bool \<times> int" where
  "div_overflow T U R dividend divisor result =
     (if cmp_eq U divisor int_t 0 then Inr (True, result)
      else if divide_min_by_negative_1 T U dividend divisor then Inr (True, result)
      else cast_truncate (common_type T U) R (divide_op T dividend U divisor) result)"

definition mod_overflow :: "ity \<Rightarrow> ity \<Rightarrow> ity \<Rightarrow> int \<Rightarrow> int \<Rightarrow> int \<Rightarrow> error + bool \<times> int" where
  "mod_overflow T U R dividend divisor result =
     (if cmp_eq U divisor int_t 0 then Inr (True, result)
      else if divide_min_by_negative_1 T U dividend divisor then Inr (True, result)
      else cast_truncate (common_type T U) R (modulo_op T dividend U divisor) result)"

section \<open>Trapping operations\<close>

text \<open>
  Each entry point declares \<^verbatim>\<open>R result = 0\<close>, runs its probe on it, calls \<^verbatim>\<open>trap()\<close>
  when the probe returns true and returns \<^verbatim>\<open>result\<close> otherwise. \<^verbatim>\<open>trap()\<close> does not
  return: the outcome of a call that reaches it is \<open>Inl Trap\<close>.
\<close>

definition trapping_cast :: "ity \<Rightarrow> ity \<Rightarrow> int \<Rightarrow> error + int" where
  "trapping_cast T R val =
     (case cast_truncate T R val 0 of
        Inl e \<Rightarrow> Inl e
      | Inr (failed, result) \<Rightarrow> if failed then Inl Trap else Inr result)"

definition trapping_add :: "ity \<Rightarrow> ity \<Rightarrow> ity \<Rightarrow> int \<Rightarrow> int \<Rightarrow> error + int" where
  "trapping_add T U R x y =
     (case add_overflow T U R x y of
        (failed, result) \<Rightarrow> if failed then Inl Trap else Inr result)"

definition trapping_mul :: "ity \<Rightarrow> ity \<Rightarrow> ity \<Rightarrow> int \<Rightarrow> int \<Rightarrow> error + int" where
  "trapping_mul T U R x y =
     (case mul_overflow T U R x y of
        (failed, result) \<Rightarrow> if failed then Inl Trap else Inr result)"

definition trapping_sub :: "ity \<Rightarrow> ity \<Rightarrow> ity \<Rightarrow> int \<Rightarrow> int \<Rightarrow> error + int" where
  "trapping_sub T U R x y =
     (case sub_overflow T U R x y of
        (failed, result) \<Rightarrow> if failed then Inl Trap else Inr result)"

definition trapping_div :: "ity \<Rightarrow> ity \<Rightarrow> ity \<Rightarrow> int \<Rightarrow> int \<Rightarrow> error + int" where
  "trapping_div T U R dividend divisor =
     (case div_overflow T U R dividend divisor 0 of
        Inl e \<Rightarrow> Inl e
      | Inr (failed, result) \<Rightarrow> if failed then Inl Trap else Inr result)"

definition trapping_mod :: "ity \<Rightarrow> ity \<Rightarrow> ity \<Rightarrow> int \<Rightarrow> int \<Rightarrow> error + int" where
  "trapping_mod T U R dividend divisor =
     (case mod_overflow T U R dividend divisor 0 of
        Inl e \<Rightarrow> Inl e
      | Inr (failed, result) \<Rightarrow> if failed then Inl Trap else Inr result)"


section \<open>The class \<open>trapping<T>\<close>\<close>

text \<open>
  An object of \<^verbatim>\<open>trapping<T>\<close> holds one field, \<^verbatim>\<open>value_\<close>. The store maps the address
  of an object to that field. A member function takes \<^verbatim>\<open>this\<close> and runs on the store;
  it ends with a returned value or with an error, and in both cases with the store as it is
  at that moment, so that a write made before a trap would show.
\<close>

type_synonym addr = nat
type_synonym store = "addr \<Rightarrow> int"
type_synonym 'a exec = "store \<Rightarrow> (error + 'a) \<times> store"

definition return_exec :: "'a \<Rightarrow> 'a exec" where
  "return_exec x = (\<lambda>s. (Inr x, s))"

definition trap :: "'a exec" where
  "trap = (\<lambda>s. (Inl Trap, s))"

definition bind_exec :: "'a exec \<Rightarrow> ('a \<Rightarrow> 'b exec) \<Rightarrow> 'b exec" where
  "bind_exec m f = (\<lambda>s. case m s of (Inl e, s') \<Rightarrow> (Inl e, s') | (Inr x, s') \<Rightarrow> f x s')"

definition read_value :: "addr \<Rightarrow> int exec" where
  "read_value this = (\<lambda>s. (Inr (s this), s))"

definition write_value :: "addr \<Rightarrow> int \<Rightarrow> unit exec" where
  "write_value this v = (\<lambda>s. (Inr (), s(this := v)))"

text \<open>A call of a free function, which does not touch the store.\<close>

definition call :: "error + 'a \<Rightarrow> 'a exec" where
  "call r = (\<lambda>s. (r, s))"

text \<open>\<^verbatim>\<open>if (c) { trap(); }\<close>\<close>

definition trap_if :: "bool \<Rightarrow> unit exec" where
  "trap_if c = (if c then trap else return_exec ())"

subsection \<open>Compound assignments\<close>

text \<open>The members returning \<^verbatim>\<open>*this\<close> as \<^verbatim>\<open>Self&\<close> return the address \<open>this\<close>.\<close>

definition operator_add_assign :: "ity \<Rightarrow> addr \<Rightarrow> int \<Rightarrow> addr exec" where
  "operator_add_assign T this x =
     bind_exec (read_value this) (\<lambda>v.
     bind_exec (call (trapping_add T T T v x)) (\<lambda>r.
     bind_exec (write_value this r) (\<lambda>_.
     return_exec this)))"

definition operator_sub_assign :: "ity \<Rightarrow> addr \<Rightarrow> int \<Rightarrow> addr exec" where
  "operator_sub_assign T this x =
     bind_exec (read_value this) (\<lambda>v.
     bind_exec (call (trapping_sub T T T v x)) (\<lambda>r.
     bind_exec (write_value this r) (\<lambda>_.
     return_exec this)))"

definition operator_mul_assign :: "ity \<Rightarrow> addr \<Rightarrow> int \<Rightarrow> addr exec" where
  "operator_mul_assign T this x =
     bind_exec (read_value this) (\<lambda>v.
     bind_exec (call (trapping_mul T T T v x)) (\<lambda>r.
     bind_exec (write_value this r) (\<lambda>_.
     return_exec this)))"

definition operator_div_assign :: "ity \<Rightarrow> addr \<Rightarrow> int \<Rightarrow> addr exec" where
  "operator_div_assign T this divisor =
     bind_exec (read_value this) (\<lambda>v.
     bind_exec (call (trapping_div T T T v divisor)) (\<lambda>r.
     bind_exec (write_value this r) (\<lambda>_.
     return_exec this)))"

definition operator_mod_assign :: "ity \<Rightarrow> addr \<Rightarrow> int \<Rightarrow> addr exec" where
  "operator_mod_assign T this divisor =
     bind_exec (read_value this) (\<lambda>v.
     bind_exec (call (trapping_mod T T T v divisor)) (\<lambda>r.
     bind_exec (write_value this r) (\<lambda>_.
     return_exec this)))"

text \<open>
  \<^verbatim>\<open>operator|=\<close>, \<^verbatim>\<open>operator&=\<close> and \<^verbatim>\<open>operator^=\<close> declare \<^verbatim>\<open>const T& x\<close> and read
  \<^verbatim>\<open>x.value_\<close>. The class asserts that \<open>T\<close> is integral, and an integral type has no
  member: the expression is ill-formed for every \<open>T\<close> the class accepts, so none of the
  three bodies can be instantiated.
\<close>

definition member_value :: "ity \<Rightarrow> int \<Rightarrow> int exec" where
  "member_value T x = (\<lambda>s. (Inl IllFormed, s))"

definition operator_or_assign :: "ity \<Rightarrow> addr \<Rightarrow> int \<Rightarrow> addr exec" where
  "operator_or_assign T this x =
     bind_exec (member_value T x) (\<lambda>x_value.
     bind_exec (read_value this) (\<lambda>v.
     bind_exec (write_value this (static_cast T (or_op T v T x_value))) (\<lambda>_.
     return_exec this)))"

definition operator_and_assign :: "ity \<Rightarrow> addr \<Rightarrow> int \<Rightarrow> addr exec" where
  "operator_and_assign T this x =
     bind_exec (member_value T x) (\<lambda>x_value.
     bind_exec (read_value this) (\<lambda>v.
     bind_exec (write_value this (static_cast T (and_op T v T x_value))) (\<lambda>_.
     return_exec this)))"

definition operator_xor_assign :: "ity \<Rightarrow> addr \<Rightarrow> int \<Rightarrow> addr exec" where
  "operator_xor_assign T this x =
     bind_exec (member_value T x) (\<lambda>x_value.
     bind_exec (read_value this) (\<lambda>v.
     bind_exec (write_value this (static_cast T (xor_op T v T x_value))) (\<lambda>_.
     return_exec this)))"

subsection \<open>Shifts\<close>

text \<open>\<^verbatim>\<open>x < 1 || x > (CHAR_BIT * sizeof(T) - 1)\<close>, the right-hand side computed in \<^verbatim>\<open>size_t\<close>.\<close>

definition shift_out_of_range :: "ity \<Rightarrow> int \<Rightarrow> bool" where
  "shift_out_of_range T x =
     (cmp_lt T x int_t 1 \<or>
      cmp_gt T x size_t (minus_op size_t (int (CHAR_BIT * sizeof T)) int_t 1))"

definition operator_shr_assign :: "ity \<Rightarrow> addr \<Rightarrow> int \<Rightarrow> addr exec" where
  "operator_shr_assign T this x =
     bind_exec (trap_if (shift_out_of_range T x)) (\<lambda>_.
     bind_exec (read_value this) (\<lambda>v.
     bind_exec (write_value this (static_cast T (shift_right_op T v x))) (\<lambda>_.
     return_exec this)))"

definition operator_shl_assign :: "ity \<Rightarrow> addr \<Rightarrow> int \<Rightarrow> addr exec" where
  "operator_shl_assign T this x =
     bind_exec (trap_if (shift_out_of_range T x)) (\<lambda>_.
     let y = static_cast T
               (shift_left_op T x (minus_op size_t (int (CHAR_BIT * sizeof T)) T x))
     in
     bind_exec (read_value this) (\<lambda>v.
     bind_exec (trap_if (cmp_gt T v T y)) (\<lambda>_.
     bind_exec (read_value this) (\<lambda>v.
     bind_exec (write_value this (static_cast T (shift_left_op T v x))) (\<lambda>_.
     return_exec this)))))"

subsection \<open>Unary operators, increment and decrement\<close>

definition operator_plus :: "ity \<Rightarrow> addr \<Rightarrow> addr exec" where
  "operator_plus T this = return_exec this"

definition operator_neg :: "ity \<Rightarrow> addr \<Rightarrow> addr exec" where
  "operator_neg T this =
     bind_exec (read_value this) (\<lambda>v.
     bind_exec (trap_if (is_signed T \<and> cmp_eq T v T (numeric_min T))) (\<lambda>_.
     bind_exec (read_value this) (\<lambda>v.
     bind_exec (write_value this (static_cast T (negate_op T v))) (\<lambda>_.
     return_exec this))))"





subsection \<open>Binary operators\<close>

text \<open>
  A binary operator takes \<^verbatim>\<open>Self lhs\<close> by value: the copy is an object of its own, the only
  one of a private store. It runs a compound assignment on the copy with the value of
  \<^verbatim>\<open>rhs\<close> and returns the copy; it is instantiated only if that compound assignment is.
\<close>

definition on_copy :: "int \<Rightarrow> (addr \<Rightarrow> addr exec) \<Rightarrow> error + int" where
  "on_copy lhs m =
     (case m 0 (\<lambda>_. lhs) of (Inl e, _) \<Rightarrow> Inl e | (Inr _, s) \<Rightarrow> Inr (s 0))"

definition operator_add :: "ity \<Rightarrow> int \<Rightarrow> int \<Rightarrow> error + int" where
  "operator_add T lhs rhs = on_copy lhs (\<lambda>p. operator_add_assign T p rhs)"

definition operator_sub :: "ity \<Rightarrow> int \<Rightarrow> int \<Rightarrow> error + int" where
  "operator_sub T lhs rhs = on_copy lhs (\<lambda>p. operator_sub_assign T p rhs)"

definition operator_mul :: "ity \<Rightarrow> int \<Rightarrow> int \<Rightarrow> error + int" where
  "operator_mul T lhs rhs = on_copy lhs (\<lambda>p. operator_mul_assign T p rhs)"

definition operator_div :: "ity \<Rightarrow> int \<Rightarrow> int \<Rightarrow> error + int" where
  "operator_div T dividend divisor = on_copy dividend (\<lambda>p. operator_div_assign T p divisor)"

definition operator_mod :: "ity \<Rightarrow> int \<Rightarrow> int \<Rightarrow> error + int" where
  "operator_mod T dividend divisor = on_copy dividend (\<lambda>p. operator_mod_assign T p divisor)"

definition operator_or :: "ity \<Rightarrow> int \<Rightarrow> int \<Rightarrow> error + int" where
  "operator_or T lhs rhs = on_copy lhs (\<lambda>p. operator_or_assign T p rhs)"

definition operator_and :: "ity \<Rightarrow> int \<Rightarrow> int \<Rightarrow> error + int" where
  "operator_and T lhs rhs = on_copy lhs (\<lambda>p. operator_and_assign T p rhs)"

text \<open>The body of \<^verbatim>\<open>operator^\<close> is \<^verbatim>\<open>lhs |= rhs; return lhs;\<close>\<close>

definition operator_xor :: "ity \<Rightarrow> int \<Rightarrow> int \<Rightarrow> error + int" where
  "operator_xor T lhs rhs = on_copy lhs (\<lambda>p. operator_or_assign T p rhs)"

definition operator_shr :: "ity \<Rightarrow> int \<Rightarrow> int \<Rightarrow> error + int" where
  "operator_shr T lhs rhs = on_copy lhs (\<lambda>p. operator_shr_assign T p rhs)"

definition operator_shl :: "ity \<Rightarrow> int \<Rightarrow> int \<Rightarrow> error + int" where
  "operator_shl T lhs rhs = on_copy lhs (\<lambda>p. operator_shl_assign T p rhs)"

lemmas ty_defs =
  int8_t_def int16_t_def int32_t_def int64_t_def
  uint8_t_def uint16_t_def uint32_t_def uint64_t_def int_t_def size_t_def

lemmas op_defs = cmp_gt_def cmp_lt_def cmp_eq_def common_type_def promote_def
  usual_arithmetic_conversion_def divide_op_def modulo_op_def
  signed_divide_int_def signed_modulo_int_def

lemmas exec_defs =
  bind_exec_def return_exec_def trap_def read_value_def write_value_def call_def trap_if_def
  member_value_def

lemmas class_defs =
  operator_add_assign_def operator_sub_assign_def operator_mul_assign_def
  operator_div_assign_def operator_mod_assign_def operator_or_assign_def
  operator_and_assign_def operator_xor_assign_def operator_shr_assign_def
  operator_shl_assign_def operator_neg_def on_copy_def shift_out_of_range_def
  or_op_def and_op_def xor_op_def shift_left_op_def shift_right_op_def minus_op_def
  negate_op_def

lemmas range_defs =
  is_integral_def representable_def numeric_min_def numeric_max_def static_cast_def
  bits_def CHAR_BIT_def

section \<open>Conversions between integral types\<close>

lemma static_cast_id: "is_integral T \<Longrightarrow> representable T v \<Longrightarrow> static_cast T v = v"
  unfolding range_defs
  by (auto split: if_splits)

lemma representable_static_cast: "is_integral T \<Longrightarrow> representable T (static_cast T v)"
  unfolding range_defs
  by (auto split: if_splits)

lemma static_cast_eq_iff: "is_integral T \<Longrightarrow> static_cast T v = v \<longleftrightarrow> representable T v"
  using static_cast_id [of T v] representable_static_cast [of T v] by auto

lemma numeric_max_nonneg: "0 \<le> numeric_max R"
  by (simp add: numeric_max_def)

lemma numeric_min_nonpos: "numeric_min T \<le> 0"
  by (simp add: numeric_min_def)

lemma representable_numeric_max: "is_integral R \<Longrightarrow> representable R (numeric_max R)"
  unfolding range_defs
  by (auto split: if_splits)

lemma representable_numeric_min: "is_integral R \<Longrightarrow> representable R (numeric_min R)"
  unfolding range_defs
  by (auto split: if_splits)

lemma unsigned_nonneg: "\<not> is_signed T \<Longrightarrow> representable T v \<Longrightarrow> 0 \<le> v"
  by (simp add: representable_def numeric_min_def)

subsection \<open>Comparisons of converted operands are exact\<close>

lemma is_integral_promote: "is_integral T \<Longrightarrow> is_integral (promote T)"
  by (auto simp: is_integral_def promote_def int_t_def int32_t_def)

lemma is_integral_common_type: "is_integral A \<Longrightarrow> is_integral B \<Longrightarrow> is_integral (common_type A B)"
  unfolding common_type_def usual_arithmetic_conversion_def
  by (simp add: is_integral_promote)

lemma is_integral_make_unsigned: "is_integral T \<Longrightarrow> is_integral (make_unsigned T)"
  by (simp add: is_integral_def make_unsigned_def)

lemma is_integral_int_t: "is_integral int_t"
  by (simp add: is_integral_def int_t_def int32_t_def)

lemma is_signed_int_t: "is_signed int_t"
  by (simp add: int_t_def int32_t_def)

lemma is_signed_common_type: "is_signed A \<Longrightarrow> is_signed B \<Longrightarrow> is_signed (common_type A B)"
  by (simp add: common_type_def usual_arithmetic_conversion_def promote_def int_t_def int32_t_def)

lemma representable_common_left:
  assumes "is_integral A" "is_integral B" "representable A a"
    and "0 \<le> a \<or> is_signed (common_type A B)"
  shows "representable (common_type A B) a"
  using assms
  unfolding range_defs common_type_def usual_arithmetic_conversion_def promote_def int_t_def int32_t_def
  by (auto split: if_splits)

lemma representable_common_right:
  assumes "is_integral A" "is_integral B" "representable B b"
    and "0 \<le> b \<or> is_signed (common_type A B)"
  shows "representable (common_type A B) b"
  using assms
  unfolding range_defs common_type_def usual_arithmetic_conversion_def promote_def int_t_def int32_t_def
  by (auto split: if_splits)

lemma converted_operands:
  assumes "is_integral A" "is_integral B" "representable A a" "representable B b"
    and "0 \<le> a \<or> is_signed (common_type A B)" and "0 \<le> b \<or> is_signed (common_type A B)"
  shows "static_cast (common_type A B) a = a" and "static_cast (common_type A B) b = b"
  using assms
  by (simp_all add: static_cast_id is_integral_common_type
      representable_common_left representable_common_right)

lemma cmp_gt_exact:
  assumes "is_integral A" "is_integral B" "representable A a" "representable B b"
    and "0 \<le> a \<or> is_signed (common_type A B)" and "0 \<le> b \<or> is_signed (common_type A B)"
  shows "cmp_gt A a B b = (b < a)"
  using converted_operands [OF assms] by (simp add: cmp_gt_def)

lemma cmp_lt_exact:
  assumes "is_integral A" "is_integral B" "representable A a" "representable B b"
    and "0 \<le> a \<or> is_signed (common_type A B)" and "0 \<le> b \<or> is_signed (common_type A B)"
  shows "cmp_lt A a B b = (a < b)"
  using converted_operands [OF assms] by (simp add: cmp_lt_def)

lemma cmp_eq_exact:
  assumes "is_integral A" "is_integral B" "representable A a" "representable B b"
    and "0 \<le> a \<or> is_signed (common_type A B)" and "0 \<le> b \<or> is_signed (common_type A B)"
  shows "cmp_eq A a B b = (a = b)"
  using converted_operands [OF assms] by (simp add: cmp_eq_def)

lemma representable_int_t_small: "- 128 \<le> k \<Longrightarrow> k \<le> 127 \<Longrightarrow> representable int_t k"
  by (simp add: representable_def numeric_min_def numeric_max_def bits_def CHAR_BIT_def int_t_def int32_t_def)

section \<open>The narrowing check\<close>

lemma cast_truncate_signed_signed:
  assumes "is_integral T" "is_integral R" "representable T val" "is_signed T" "is_signed R"
  shows "cast_truncate T R val result =
           (if sizeof R < sizeof T \<and> numeric_max R < val then Inr (True, result)
            else Inr (False, static_cast R val))"
proof -
  have "cmp_gt T val R (numeric_max R) = (numeric_max R < val)"
    using assms by (intro cmp_gt_exact) (simp_all add: representable_numeric_max is_signed_common_type)
  then show ?thesis
    using assms by (auto simp: cast_truncate_def Let_def)
qed

lemma cast_truncate_unsigned_unsigned:
  assumes "is_integral T" "is_integral R" "representable T val" "\<not> is_signed T" "\<not> is_signed R"
  shows "cast_truncate T R val result =
           (if sizeof R < sizeof T \<and> numeric_max R < val then Inr (True, result)
            else Inr (False, static_cast R val))"
proof -
  have "cmp_gt T val R (numeric_max R) = (numeric_max R < val)"
    using assms by (intro cmp_gt_exact) (simp_all add: representable_numeric_max numeric_max_nonneg unsigned_nonneg)
  then show ?thesis
    using assms by (auto simp: cast_truncate_def Let_def)
qed

lemma cast_truncate_signed_unsigned:
  assumes "is_integral T" "is_integral R" "representable T val" "is_signed T" "\<not> is_signed R"
  shows "cast_truncate T R val result =
           (if val < 0 \<or> (sizeof R < sizeof T \<and> numeric_max R < static_cast (make_unsigned T) val)
            then Inr (True, result)
            else Inr (False, static_cast R val))"
proof -
  let ?U = "make_unsigned T"
  have neg: "cmp_lt T val int_t 0 = (val < 0)"
    using assms
    by (intro cmp_lt_exact) (simp_all add: is_integral_int_t representable_int_t_small
        is_signed_common_type is_signed_int_t)
  have "is_integral ?U"
    using assms by (simp add: is_integral_make_unsigned)
  moreover have "\<not> is_signed ?U"
    by (simp add: make_unsigned_def)
  ultimately have U: "is_integral ?U" "\<not> is_signed ?U" .
  have "representable ?U (static_cast ?U val)"
    using U by (simp add: representable_static_cast)
  then have "cmp_gt ?U (static_cast ?U val) R (numeric_max R) = (numeric_max R < static_cast ?U val)"
    using assms U
    by (intro cmp_gt_exact) (simp_all add: representable_numeric_max numeric_max_nonneg unsigned_nonneg)
  then show ?thesis
    using assms neg by (auto simp: cast_truncate_def Let_def)
qed

lemma cast_truncate_unsigned_signed:
  assumes "is_integral T" "is_integral R" "representable T val" "\<not> is_signed T" "is_signed R"
  shows "cast_truncate T R val result =
           (if numeric_max R < val then Inr (True, result) else Inr (False, static_cast R val))"
proof -
  have "cmp_gt T val R (numeric_max R) = (numeric_max R < val)"
    using assms by (intro cmp_gt_exact) (simp_all add: representable_numeric_max numeric_max_nonneg unsigned_nonneg)
  then show ?thesis
    using assms by (auto simp: cast_truncate_def Let_def)
qed

lemma cast_truncate_reached: "cast_truncate T R val result \<noteq> Inl e"
  by (auto simp: cast_truncate_def Let_def)

text \<open>
  C7. \<^verbatim>\<open>cast_truncate\<close> follows the case-by-case algorithm: from signed to signed it fails
  exactly when the source is wider and the value is above the maximum of \<open>R\<close>; from signed
  to unsigned it fails when the value is negative, and otherwise only when the source is
  wider and the unsigned bit pattern of the value is above the maximum of \<open>R\<close>; from
  unsigned to signed it fails exactly when the value is above the maximum of \<open>R\<close>, whatever
  the widths; from unsigned to unsigned it decides as from signed to signed. A failing
  call leaves \<^verbatim>\<open>*result\<close> as it was, a succeeding one stores the
  converted value.
\<close>

theorem cast_truncate_cases:
  assumes "is_integral T" and "is_integral R" and "representable T val"
  shows "(is_signed T \<and> is_signed R \<longrightarrow>
            cast_truncate T R val result =
              (if sizeof R < sizeof T \<and> numeric_max R < val then Inr (True, result)
               else Inr (False, static_cast R val))) \<and>
         (is_signed T \<and> \<not> is_signed R \<longrightarrow>
            cast_truncate T R val result =
              (if val < 0 \<or>
                  (sizeof R < sizeof T \<and> numeric_max R < static_cast (make_unsigned T) val)
               then Inr (True, result)
               else Inr (False, static_cast R val))) \<and>
         (\<not> is_signed T \<and> is_signed R \<longrightarrow>
            cast_truncate T R val result =
              (if numeric_max R < val then Inr (True, result)
               else Inr (False, static_cast R val))) \<and>
         (\<not> is_signed T \<and> \<not> is_signed R \<longrightarrow>
            cast_truncate T R val result =
              (if sizeof R < sizeof T \<and> numeric_max R < val then Inr (True, result)
               else Inr (False, static_cast R val)))"
  using assms cast_truncate_signed_signed [of T R val result]
    cast_truncate_signed_unsigned [of T R val result]
    cast_truncate_unsigned_signed [of T R val result]
    cast_truncate_unsigned_unsigned [of T R val result]
  by blast

theorem cast_truncate_cases_witness:
  "cast_truncate int32_t int8_t 200 0 = Inr (True, 0) \<and>
   cast_truncate int8_t int32_t (- 5) 0 = Inr (False, - 5) \<and>
   cast_truncate int32_t uint32_t (- 1) 0 = Inr (True, 0) \<and>
   cast_truncate int32_t uint8_t 256 0 = Inr (True, 0) \<and>
   cast_truncate int32_t uint8_t 255 0 = Inr (False, 255) \<and>
   cast_truncate uint8_t int64_t 255 0 = Inr (False, 255) \<and>
   cast_truncate uint32_t int32_t 4294967295 0 = Inr (True, 0) \<and>
   cast_truncate uint16_t uint8_t 256 0 = Inr (True, 0)"
  using cast_truncate_cases [of int32_t int8_t 200 0]
    cast_truncate_cases [of int8_t int32_t "- 5" 0]
    cast_truncate_cases [of int32_t uint32_t "- 1" 0]
    cast_truncate_cases [of int32_t uint8_t 256 0]
    cast_truncate_cases [of int32_t uint8_t 255 0]
    cast_truncate_cases [of uint8_t int64_t 255 0]
    cast_truncate_cases [of uint32_t int32_t 4294967295 0]
    cast_truncate_cases [of uint16_t uint8_t 256 0]
  by (simp add: range_defs ty_defs make_unsigned_def)

subsection \<open>Which values the check accepts\<close>

text \<open>
  The check accepts every value that \<open>R\<close> represents, and stores it unchanged. The only
  other values it accepts are those below the minimum of \<open>R\<close> in a narrowing conversion
  from signed to signed, where the source compares with the maximum alone.
\<close>

lemma numeric_max_mono:
  assumes "is_integral T" "is_integral R" "sizeof T \<le> sizeof R" "is_signed R \<longrightarrow> is_signed T"
  shows "numeric_max T \<le> numeric_max R"
  using assms unfolding range_defs by (auto split: if_splits)

lemma numeric_min_mono:
  assumes "is_integral T" "is_integral R" "sizeof T \<le> sizeof R" "is_signed T" "is_signed R"
  shows "numeric_min R \<le> numeric_min T"
  using assms unfolding range_defs by (auto split: if_splits)

lemma cast_truncate_accepts:
  assumes "is_integral T" "is_integral R" "representable T val"
  shows "cast_truncate T R val result =
           (if representable R val \<or>
               (is_signed T \<and> is_signed R \<and> sizeof R < sizeof T \<and> val < numeric_min R)
            then Inr (False, static_cast R val) else Inr (True, result))"
proof (cases "is_signed T"; cases "is_signed R")
  assume s: "is_signed T" "is_signed R"
  show ?thesis
  proof (cases "sizeof R < sizeof T")
    case True
    then show ?thesis
      using assms s cast_truncate_signed_signed [of T R val result]
        numeric_max_nonneg [of R] numeric_min_nonpos [of R]
      by (auto simp: representable_def)
  next
    case False
    then have "representable R val"
      using assms s numeric_max_mono [of T R] numeric_min_mono [of T R]
      unfolding representable_def by simp
    then show ?thesis
      using assms s False cast_truncate_signed_signed [of T R val result] by simp
  qed
next
  assume s: "is_signed T" "\<not> is_signed R"
  show ?thesis
  proof (cases "val < 0")
    case True
    then show ?thesis
      using assms s cast_truncate_signed_unsigned [of T R val result]
      by (auto simp: representable_def numeric_min_def)
  next
    case False
    have U: "is_integral (make_unsigned T)"
      using assms(1) by (rule is_integral_make_unsigned)
    have "numeric_max T \<le> numeric_max (make_unsigned T)"
      using assms(1) U by (intro numeric_max_mono) (simp_all add: make_unsigned_def)
    then have "representable (make_unsigned T) val"
      using False assms(3) by (simp add: representable_def numeric_min_def make_unsigned_def)
    then have pattern: "static_cast (make_unsigned T) val = val"
      using U by (simp add: static_cast_id)
    show ?thesis
    proof (cases "sizeof R < sizeof T")
      case True
      then show ?thesis
        using assms s False pattern cast_truncate_signed_unsigned [of T R val result]
        by (auto simp: representable_def numeric_min_def)
    next
      case wide: False
      then have "numeric_max T \<le> numeric_max R"
        using assms s by (intro numeric_max_mono) simp_all
      then have "representable R val"
        using assms(3) s False by (simp add: representable_def numeric_min_def)
      then show ?thesis
        using assms s False wide cast_truncate_signed_unsigned [of T R val result] by simp
    qed
  qed
next
  assume s: "\<not> is_signed T" "is_signed R"
  have "0 \<le> val" "numeric_min R \<le> 0"
    using assms s by (simp_all add: unsigned_nonneg numeric_min_nonpos)
  then show ?thesis
    using assms s cast_truncate_unsigned_signed [of T R val result]
    by (auto simp: representable_def)
next
  assume s: "\<not> is_signed T" "\<not> is_signed R"
  have nonneg: "0 \<le> val"
    using assms s by (simp add: unsigned_nonneg)
  show ?thesis
  proof (cases "sizeof R < sizeof T")
    case True
    then show ?thesis
      using assms s nonneg cast_truncate_unsigned_unsigned [of T R val result]
      by (auto simp: representable_def numeric_min_def)
  next
    case False
    then have "numeric_max T \<le> numeric_max R"
      using assms s by (intro numeric_max_mono) simp_all
    then have "representable R val"
      using assms(3) s nonneg by (simp add: representable_def numeric_min_def)
    then show ?thesis
      using assms s False cast_truncate_unsigned_unsigned [of T R val result] by simp
  qed
qed

text \<open>
  C1. The claim is that \<^verbatim>\<open>cast_truncate\<close> returns false exactly for the values that \<open>R\<close>
  represents, and that a stored result converts back to the value. From \<^verbatim>\<open>int32_t\<close> to
  \<^verbatim>\<open>int8_t\<close> the source compares with the maximum only: at \<open>-129\<close>, which \<^verbatim>\<open>int8_t\<close>
  does not represent, the call returns false and stores \<open>127\<close>, which converts back to
  \<open>127\<close>.
\<close>

theorem cast_truncate_below_min:
  "cast_truncate int32_t int8_t (- 129) 0 = Inr (False, 127) \<and>
   \<not> representable int8_t (- 129) \<and>
   representable int32_t (- 129) \<and>
   static_cast int32_t 127 \<noteq> - 129"
  by (simp add: cast_truncate_def cmp_gt_def common_type_def promote_def
      usual_arithmetic_conversion_def range_defs ty_defs)

section \<open>The addition, subtraction and multiplication probes\<close>

lemma builtin_overflow_exact:
  assumes "is_integral R"
  shows "(static_cast R k \<noteq> k) = (k < numeric_min R \<or> numeric_max R < k)"
  using static_cast_eq_iff [OF assms, of k] by (auto simp: representable_def)

text \<open>
  C6. For every integral result type \<open>R\<close> and all operands, \<^verbatim>\<open>add_overflow\<close>,
  \<^verbatim>\<open>sub_overflow\<close> and \<^verbatim>\<open>mul_overflow\<close> return true exactly when the exact sum,
  difference or product lies outside \<open>[R_min, R_max]\<close>, and when they return false the
  stored result is that exact value.
\<close>

theorem arith_overflow_exact:
  assumes "is_integral R"
  shows "(fst (add_overflow T U R x y) \<longleftrightarrow> x + y < numeric_min R \<or> numeric_max R < x + y) \<and>
         (\<not> fst (add_overflow T U R x y) \<longrightarrow> snd (add_overflow T U R x y) = x + y) \<and>
         (fst (sub_overflow T U R x y) \<longleftrightarrow> x - y < numeric_min R \<or> numeric_max R < x - y) \<and>
         (\<not> fst (sub_overflow T U R x y) \<longrightarrow> snd (sub_overflow T U R x y) = x - y) \<and>
         (fst (mul_overflow T U R x y) \<longleftrightarrow> x * y < numeric_min R \<or> numeric_max R < x * y) \<and>
         (\<not> fst (mul_overflow T U R x y) \<longrightarrow> snd (mul_overflow T U R x y) = x * y)"
  using builtin_overflow_exact [OF assms, of "x + y"] builtin_overflow_exact [OF assms, of "x - y"]
    builtin_overflow_exact [OF assms, of "x * y"]
  by (auto simp add: add_overflow_def sub_overflow_def mul_overflow_def
      builtin_add_overflow_def builtin_sub_overflow_def builtin_mul_overflow_def Let_def)

theorem arith_overflow_exact_witness:
  "fst (add_overflow uint8_t uint8_t uint8_t 200 100) \<and>
   add_overflow int8_t int8_t int8_t 100 27 = (False, 127) \<and>
   fst (sub_overflow int32_t int32_t int8_t (- 100) 100) \<and>
   sub_overflow uint16_t uint16_t uint16_t 7 7 = (False, 0) \<and>
   fst (mul_overflow int8_t int8_t int8_t 16 8) \<and>
   mul_overflow int8_t int8_t int8_t 16 (- 8) = (False, - 128)"
  using arith_overflow_exact [where R = uint8_t and T = uint8_t and U = uint8_t and x = 200 and y = 100]
    arith_overflow_exact [where R = int8_t and T = int8_t and U = int8_t and x = 100 and y = 27]
    arith_overflow_exact [where R = int8_t and T = int32_t and U = int32_t and x = "- 100" and y = 100]
    arith_overflow_exact [where R = uint16_t and T = uint16_t and U = uint16_t and x = 7 and y = 7]
    arith_overflow_exact [where R = int8_t and T = int8_t and U = int8_t and x = 16 and y = 8]
    arith_overflow_exact [where R = int8_t and T = int8_t and U = int8_t and x = 16 and y = "- 8"]
  by (simp add: is_integral_def numeric_min_def numeric_max_def bits_def CHAR_BIT_def ty_defs
      prod_eq_iff)

section \<open>The division probes\<close>

lemma common_type_same: "common_type T T = promote T"
  by (simp add: common_type_def usual_arithmetic_conversion_def)

lemma is_signed_promote: "is_signed T \<Longrightarrow> is_signed (promote T)"
  by (simp add: promote_def is_signed_int_t)

lemma representable_promote:
  assumes "is_integral T" "representable T v"
  shows "representable (promote T) v"
proof -
  have "0 \<le> v \<or> is_signed (common_type T T)"
    using assms(2) by (cases "is_signed T") (simp_all add: unsigned_nonneg common_type_same is_signed_promote)
  then show ?thesis
    using representable_common_left [of T T v] assms by (simp add: common_type_same)
qed

lemma static_cast_promote_id:
  "is_integral T \<Longrightarrow> representable T v \<Longrightarrow> static_cast (promote T) v = v"
  by (simp add: static_cast_id is_integral_promote representable_promote)

lemma cmp_eq_same_type:
  "is_integral T \<Longrightarrow> representable T a \<Longrightarrow> representable T b \<Longrightarrow> cmp_eq T a T b = (a = b)"
  by (simp add: cmp_eq_def common_type_same static_cast_promote_id)

lemma cmp_eq_int_literal:
  assumes "is_integral U" "representable U b" "- 128 \<le> k" "k \<le> 127" "0 \<le> k \<or> is_signed U"
  shows "cmp_eq U b int_t k = (b = k)"
proof (cases "is_signed U")
  case True
  then have "is_signed (common_type U int_t)"
    by (simp add: is_signed_common_type is_signed_int_t)
  then show ?thesis
    using assms by (intro cmp_eq_exact) (simp_all add: is_integral_int_t representable_int_t_small)
next
  case False
  then have "0 \<le> b" "0 \<le> k"
    using assms by (simp_all add: unsigned_nonneg)
  then show ?thesis
    using assms by (intro cmp_eq_exact) (simp_all add: is_integral_int_t representable_int_t_small)
qed

lemma divide_min_by_negative_1_exact:
  assumes "is_integral T" "is_integral U" "representable T dividend" "representable U divisor"
    and "\<not> (\<not> is_signed T \<and> is_signed U \<and> dividend = 0 \<and> divisor = - 1)"
  shows "divide_min_by_negative_1 T U dividend divisor =
           (is_signed T \<and> dividend = numeric_min T \<and> divisor = - 1)"
proof (cases "is_signed U")
  case True
  then have code: "divide_min_by_negative_1 T U dividend divisor =
      (dividend = numeric_min T \<and> divisor = - 1)"
    using assms
    by (simp add: divide_min_by_negative_1_def cmp_eq_same_type representable_numeric_min
        cmp_eq_int_literal)
  show ?thesis
  proof (cases "is_signed T")
    case True
    then show ?thesis using code by simp
  next
    case False
    then have "numeric_min T = 0" by (simp add: numeric_min_def)
    then show ?thesis using code False True assms(5) by auto
  qed
next
  case False
  then have "divisor \<noteq> - 1"
    using assms(4) unsigned_nonneg [of U divisor] by auto
  then show ?thesis
    using False by (simp add: divide_min_by_negative_1_def)
qed

lemma sdiv_abs_le: "\<bar>a sdiv b\<bar> \<le> \<bar>a\<bar>" for a b :: int
proof -
  have nonneg: "0 \<le> \<bar>a\<bar> div \<bar>b\<bar>"
    by (simp add: div_int_pos_iff)
  have "\<bar>a sdiv b\<bar> = \<bar>sgn a\<bar> * \<bar>sgn b\<bar> * (\<bar>a\<bar> div \<bar>b\<bar>)"
    using nonneg by (simp add: signed_divide_int_def abs_mult)
  also have "\<dots> \<le> \<bar>a\<bar> div \<bar>b\<bar>"
    using nonneg by (cases "a = 0"; cases "b = 0") (simp_all add: abs_sgn_eq)
  also have "\<dots> \<le> \<bar>a\<bar>"
    by (cases "a = 0") (simp_all add: int_div_le_self)
  finally show ?thesis .
qed

lemma sdiv_nonneg: "0 \<le> a \<Longrightarrow> 0 \<le> b \<Longrightarrow> 0 \<le> a sdiv b" for a b :: int
  by (simp add: signed_divide_int_def div_int_pos_iff sgn_if)

lemma sdiv_min_bound:
  fixes a b :: int
  assumes "a < 0" "b \<noteq> - 1" "1 \<le> - a div 2"
  shows "a sdiv b < - a"
proof (cases "b = 0 \<or> b = 1")
  case True
  then show ?thesis using assms by (auto simp: signed_divide_int_def)
next
  case False
  then have "2 \<le> \<bar>b\<bar>" using assms by auto
  have "a sdiv b \<le> \<bar>a sdiv b\<bar>" by simp
  also have "\<dots> \<le> \<bar>a\<bar> div \<bar>b\<bar>"
    by (cases "a = 0"; cases "b = 0") (simp_all add: signed_divide_int_def abs_mult abs_sgn_eq div_int_pos_iff)
  also have "\<dots> \<le> \<bar>a\<bar> div 2"
    using \<open>2 \<le> \<bar>b\<bar>\<close> by (intro zdiv_mono2) simp_all
  also have "\<dots> < - a"
    using assms by simp
  finally show ?thesis .
qed

lemma sdiv_representable:
  assumes "is_integral T" "representable T a" "representable T b" "b \<noteq> 0"
    and "\<not> (is_signed T \<and> a = numeric_min T \<and> b = - 1)"
  shows "representable T (a sdiv b)"
proof (cases "is_signed T")
  case False
  then have "0 \<le> a" "0 \<le> b"
    using assms by (simp_all add: unsigned_nonneg)
  then have "0 \<le> a sdiv b" "a sdiv b \<le> a"
    using sdiv_abs_le [of a b] sdiv_nonneg [of a b] by simp_all
  then show ?thesis
    using assms(2) False by (simp add: representable_def numeric_min_def)
next
  case True
  let ?m = "numeric_max T"
  have min: "numeric_min T = - ?m - 1" and m: "1 \<le> (?m + 1) div 2"
    using True assms(1) by (auto simp: range_defs)
  show ?thesis
  proof (cases "a = numeric_min T")
    case False
    then have "\<bar>a\<bar> \<le> ?m"
      using assms(2) min unfolding representable_def by linarith
    then have "\<bar>a sdiv b\<bar> \<le> ?m"
      using sdiv_abs_le [of a b] by simp
    then show ?thesis
      using min unfolding representable_def by linarith
  next
    case a: True
    then have "b \<noteq> - 1" using assms(5) True by simp
    moreover have "a < 0" "- a = ?m + 1" using a min numeric_max_nonneg [of T] by simp_all
    ultimately have "a sdiv b < ?m + 1"
      using sdiv_min_bound [of a b] m by simp
    moreover have "- \<bar>a\<bar> \<le> a sdiv b"
      using sdiv_abs_le [of a b] by simp
    ultimately show ?thesis
      using \<open>a < 0\<close> a unfolding representable_def by linarith
  qed
qed

lemma smod_representable:
  assumes "representable T a"
  shows "representable T (a smod b)"
proof -
  have "0 \<le> \<bar>a\<bar> mod \<bar>b\<bar>" "\<bar>a\<bar> mod \<bar>b\<bar> \<le> \<bar>a\<bar>"
    by (cases "b = 0"; simp add: zmod_le_nonneg_dividend)+
  then have "(0 \<le> a \<longrightarrow> 0 \<le> a smod b \<and> a smod b \<le> a) \<and> (a < 0 \<longrightarrow> a \<le> a smod b \<and> a smod b \<le> 0)"
    by (auto simp: signed_modulo_int_def sgn_if)
  then show ?thesis
    using assms numeric_max_nonneg [of T] numeric_min_nonpos [of T]
    unfolding representable_def by linarith
qed


lemma cast_truncate_from_promoted:
  assumes "is_integral T" "representable T q"
  shows "cast_truncate (promote T) T q result = Inr (False, q)"
proof (cases "sizeof T < sizeof int_t")
  case False
  then have P: "promote T = T" by (simp add: promote_def)
  show ?thesis
    using assms cast_truncate_signed_signed [of T T q result]
      cast_truncate_unsigned_unsigned [of T T q result]
    by (cases "is_signed T") (simp_all add: P static_cast_id)
next
  case True
  then have P: "promote T = int_t" by (simp add: promote_def)
  have q: "representable int_t q"
    using representable_promote [OF assms] by (simp add: P)
  show ?thesis
  proof (cases "is_signed T")
    case True
    then show ?thesis
      using assms q cast_truncate_signed_signed [of int_t T q result]
      by (simp add: P static_cast_id is_integral_int_t is_signed_int_t representable_def)
  next
    case False
    then have "0 \<le> q" using assms by (simp add: unsigned_nonneg)
    then have "representable (make_unsigned int_t) q"
      using q by (simp add: range_defs make_unsigned_def int_t_def int32_t_def)
    then have "static_cast (make_unsigned int_t) q = q"
      by (simp add: static_cast_id is_integral_make_unsigned is_integral_int_t)
    then show ?thesis
      using assms q False \<open>0 \<le> q\<close> cast_truncate_signed_unsigned [of int_t T q result]
      by (simp add: P static_cast_id is_integral_int_t is_signed_int_t representable_def)
  qed
qed

lemma divide_op_same_type:
  "is_integral T \<Longrightarrow> representable T a \<Longrightarrow> representable T b \<Longrightarrow> divide_op T a T b = a sdiv b"
  by (simp add: divide_op_def common_type_same static_cast_promote_id)

lemma modulo_op_same_type:
  "is_integral T \<Longrightarrow> representable T a \<Longrightarrow> representable T b \<Longrightarrow> modulo_op T a T b = a smod b"
  by (simp add: modulo_op_def common_type_same static_cast_promote_id)

lemma div_overflow_general:
  assumes "is_integral T" "is_integral U" "representable T dividend" "representable U divisor"
    and "\<not> (\<not> is_signed T \<and> is_signed U \<and> dividend = 0 \<and> divisor = - 1)"
  shows "div_overflow T U R dividend divisor result =
           (if divisor = 0 \<or> (is_signed T \<and> dividend = numeric_min T \<and> divisor = - 1)
            then Inr (True, result)
            else cast_truncate (common_type T U) R (divide_op T dividend U divisor) result)"
proof -
  have "cmp_eq U divisor int_t 0 = (divisor = 0)"
    using assms by (intro cmp_eq_int_literal) simp_all
  then show ?thesis
    unfolding div_overflow_def divide_min_by_negative_1_exact [OF assms] by auto
qed

lemma mod_overflow_general:
  assumes "is_integral T" "is_integral U" "representable T dividend" "representable U divisor"
    and "\<not> (\<not> is_signed T \<and> is_signed U \<and> dividend = 0 \<and> divisor = - 1)"
  shows "mod_overflow T U R dividend divisor result =
           (if divisor = 0 \<or> (is_signed T \<and> dividend = numeric_min T \<and> divisor = - 1)
            then Inr (True, result)
            else cast_truncate (common_type T U) R (modulo_op T dividend U divisor) result)"
proof -
  have "cmp_eq U divisor int_t 0 = (divisor = 0)"
    using assms by (intro cmp_eq_int_literal) simp_all
  then show ?thesis
    unfolding mod_overflow_def divide_min_by_negative_1_exact [OF assms] by auto
qed

lemma div_overflow_same_type:
  assumes "is_integral T" "representable T dividend" "representable T divisor"
  shows "div_overflow T T T dividend divisor result =
           (if divisor = 0 \<or> (is_signed T \<and> dividend = numeric_min T \<and> divisor = - 1)
            then Inr (True, result)
            else Inr (False, dividend sdiv divisor))"
  using assms div_overflow_general [of T T dividend divisor T result]
  by (simp add: common_type_same divide_op_same_type cast_truncate_from_promoted
      sdiv_representable)

lemma mod_overflow_same_type:
  assumes "is_integral T" "representable T dividend" "representable T divisor"
  shows "mod_overflow T T T dividend divisor result =
           (if divisor = 0 \<or> (is_signed T \<and> dividend = numeric_min T \<and> divisor = - 1)
            then Inr (True, result)
            else Inr (False, dividend smod divisor))"
  using assms mod_overflow_general [of T T dividend divisor T result]
  by (simp add: common_type_same modulo_op_same_type cast_truncate_from_promoted
      smod_representable)

text \<open>
  C4, as the source has it. With operands representable in \<open>T\<close> and \<open>U\<close>, and one input
  left aside (dividend 0 of an unsigned type with divisor \<open>-1\<close> of a signed type),
  \<^verbatim>\<open>div_overflow\<close> and \<^verbatim>\<open>mod_overflow\<close> return true exactly when the
  divisor is 0, or \<open>T\<close> is signed, the dividend is the minimum of \<open>T\<close> and the divisor is
  \<open>-1\<close>, or the quotient (remainder) of the built-in operator does not pass
  \<^verbatim>\<open>cast_truncate\<close> into \<open>R\<close>. With both operands and the result of one type \<open>T\<close> the
  narrowing never fails: the first two conditions are the only failures, and otherwise the
  truncating quotient (remainder) is stored.
\<close>

theorem div_mod_overflow_failure:
  assumes "is_integral T" and "is_integral U"
    and "representable T dividend" and "representable U divisor"
    and "\<not> (\<not> is_signed T \<and> is_signed U \<and> dividend = 0 \<and> divisor = - 1)"
  shows "div_overflow T U R dividend divisor result =
           (if divisor = 0 \<or> (is_signed T \<and> dividend = numeric_min T \<and> divisor = - 1)
            then Inr (True, result)
            else cast_truncate (common_type T U) R (divide_op T dividend U divisor) result) \<and>
         mod_overflow T U R dividend divisor result =
           (if divisor = 0 \<or> (is_signed T \<and> dividend = numeric_min T \<and> divisor = - 1)
            then Inr (True, result)
            else cast_truncate (common_type T U) R (modulo_op T dividend U divisor) result) \<and>
         (U = T \<and> R = T \<longrightarrow>
            div_overflow T U R dividend divisor result =
              (if divisor = 0 \<or> (is_signed T \<and> dividend = numeric_min T \<and> divisor = - 1)
               then Inr (True, result)
               else Inr (False, dividend sdiv divisor)) \<and>
            mod_overflow T U R dividend divisor result =
              (if divisor = 0 \<or> (is_signed T \<and> dividend = numeric_min T \<and> divisor = - 1)
               then Inr (True, result)
               else Inr (False, dividend smod divisor)))"
  using assms div_overflow_general [OF assms] mod_overflow_general [OF assms]
    div_overflow_same_type [of T dividend divisor result]
    mod_overflow_same_type [of T dividend divisor result]
  by auto

theorem div_mod_overflow_failure_witness:
  "div_overflow int32_t int32_t int32_t (- 2147483648) (- 1) 0 = Inr (True, 0) \<and>
   mod_overflow int32_t int32_t int32_t (- 2147483648) (- 1) 0 = Inr (True, 0) \<and>
   div_overflow int8_t int8_t int8_t (- 128) 1 0 = Inr (False, - 128) \<and>
   mod_overflow int8_t int8_t int8_t (- 7) 2 0 = Inr (False, - 1) \<and>
   div_overflow uint8_t uint8_t uint8_t 255 0 0 = Inr (True, 0) \<and>
   div_overflow int32_t uint16_t int8_t 1000 1 0 = Inr (True, 0) \<and>
   div_overflow uint32_t int32_t uint32_t 6 3 0 = Inr (False, 2) \<and>
   div_overflow uint32_t int32_t uint32_t 5 0 0 = Inr (True, 0) \<and>
   mod_overflow uint32_t int32_t uint32_t 0 1 0 = Inr (False, 0)"
proof -
  have "div_overflow int32_t int32_t int32_t (- 2147483648) (- 1) 0 = Inr (True, 0)"
    and "mod_overflow int32_t int32_t int32_t (- 2147483648) (- 1) 0 = Inr (True, 0)"
    using div_mod_overflow_failure [of int32_t int32_t "- 2147483648" "- 1" int32_t 0]
    by (simp_all add: range_defs ty_defs)
  moreover have "div_overflow int8_t int8_t int8_t (- 128) 1 0 = Inr (False, - 128)"
    using div_mod_overflow_failure [of int8_t int8_t "- 128" 1 int8_t 0]
    by (simp add: cast_truncate_def op_defs range_defs ty_defs)
  moreover have "mod_overflow int8_t int8_t int8_t (- 7) 2 0 = Inr (False, - 1)"
    using div_mod_overflow_failure [of int8_t int8_t "- 7" 2 int8_t 0]
    by (simp add: cast_truncate_def op_defs range_defs ty_defs)
  moreover have "div_overflow uint8_t uint8_t uint8_t 255 0 0 = Inr (True, 0)"
    using div_mod_overflow_failure [of uint8_t uint8_t 255 0 uint8_t 0]
    by (simp add: range_defs ty_defs)
  moreover have "div_overflow int32_t uint16_t int8_t 1000 1 0 = Inr (True, 0)"
    using div_mod_overflow_failure [of int32_t uint16_t 1000 1 int8_t 0]
    by (simp add: cast_truncate_def op_defs range_defs ty_defs)
  moreover have "div_overflow uint32_t int32_t uint32_t 6 3 0 = Inr (False, 2)"
    using div_mod_overflow_failure [of uint32_t int32_t 6 3 uint32_t 0]
    by (simp add: cast_truncate_def op_defs range_defs ty_defs)
  moreover have "div_overflow uint32_t int32_t uint32_t 5 0 0 = Inr (True, 0)"
    using div_mod_overflow_failure [of uint32_t int32_t 5 0 uint32_t 0]
    by (simp add: range_defs ty_defs)
  moreover have "mod_overflow uint32_t int32_t uint32_t 0 1 0 = Inr (False, 0)"
    using div_mod_overflow_failure [of uint32_t int32_t 0 1 uint32_t 0]
    by (simp add: cast_truncate_def op_defs range_defs ty_defs)
  ultimately show ?thesis by simp
qed

text \<open>
  C4, as the claim states it, fails for a result type narrower than the quotient: dividing
  \<open>1000\<close> by \<open>1\<close> (and taking \<open>1000\<close> modulo \<open>1001\<close>) from \<^verbatim>\<open>int32_t\<close> into
  \<^verbatim>\<open>int8_t\<close> reports failure although the divisor is not 0 and the dividend is not the
  minimum.
\<close>

theorem div_overflow_narrowing_counterexample:
  "div_overflow int32_t int32_t int8_t 1000 1 0 = Inr (True, 0) \<and>
   mod_overflow int32_t int32_t int8_t 1000 1001 0 = Inr (True, 0) \<and>
   representable int32_t 1000 \<and> representable int32_t 1001 \<and>
   (1::int) \<noteq> 0 \<and> (1001::int) \<noteq> 0 \<and> 1000 \<noteq> numeric_min int32_t"
  by (simp add: cast_truncate_def div_overflow_def mod_overflow_def
        divide_min_by_negative_1_def op_defs range_defs ty_defs)

text \<open>
  With an unsigned dividend type and a signed divisor type, \<^verbatim>\<open>divide_min_by_negative_1\<close>
  asks whether the divisor type is signed and compares the dividend with the minimum of its
  own type, which is 0: dividing 0 by \<open>-1\<close> is reported as a failure.
\<close>

lemma div_overflow_unsigned_dividend_signed_divisor:
  "div_overflow uint32_t int32_t uint32_t 0 (- 1) 7 = Inr (True, 7) \<and>
   mod_overflow uint8_t int8_t int32_t 0 (- 1) 7 = Inr (True, 7)"
  by (simp add: div_overflow_def mod_overflow_def divide_min_by_negative_1_def
      op_defs range_defs ty_defs)

section \<open>The trapping entry points and their probes\<close>

lemma div_overflow_reached: "div_overflow T U R dividend divisor result \<noteq> Inl e"
  by (simp add: div_overflow_def cast_truncate_reached)

lemma mod_overflow_reached: "mod_overflow T U R dividend divisor result \<noteq> Inl e"
  by (simp add: mod_overflow_def cast_truncate_reached)

lemma probe_reports: "(\<And>e. p \<noteq> Inl e) \<Longrightarrow> \<exists>b r. p = Inr (b, r)"
  by (cases p) auto

text \<open>
  C5. For each of \<^verbatim>\<open>trapping_cast\<close>, \<^verbatim>\<open>trapping_add\<close>, \<^verbatim>\<open>trapping_sub\<close>,
  \<^verbatim>\<open>trapping_mul\<close>, \<^verbatim>\<open>trapping_div\<close>, \<^verbatim>\<open>trapping_mod\<close> and every input: when the
  probe returns false, the entry point returns the value the probe stored; when the probe
  returns true, the entry point reaches \<^verbatim>\<open>trap()\<close> and does not return. Every probe
  returns one of the two.
\<close>

theorem trapping_entry_points:
  "(\<forall>r. cast_truncate T R val 0 = Inr (False, r) \<longrightarrow> trapping_cast T R val = Inr r) \<and>
   (\<forall>r. cast_truncate T R val 0 = Inr (True, r) \<longrightarrow> trapping_cast T R val = Inl Trap) \<and>
   (\<forall>r. add_overflow T U R x y = (False, r) \<longrightarrow> trapping_add T U R x y = Inr r) \<and>
   (\<forall>r. add_overflow T U R x y = (True, r) \<longrightarrow> trapping_add T U R x y = Inl Trap) \<and>
   (\<forall>r. sub_overflow T U R x y = (False, r) \<longrightarrow> trapping_sub T U R x y = Inr r) \<and>
   (\<forall>r. sub_overflow T U R x y = (True, r) \<longrightarrow> trapping_sub T U R x y = Inl Trap) \<and>
   (\<forall>r. mul_overflow T U R x y = (False, r) \<longrightarrow> trapping_mul T U R x y = Inr r) \<and>
   (\<forall>r. mul_overflow T U R x y = (True, r) \<longrightarrow> trapping_mul T U R x y = Inl Trap) \<and>
   (\<forall>r. div_overflow T U R dividend divisor 0 = Inr (False, r) \<longrightarrow>
        trapping_div T U R dividend divisor = Inr r) \<and>
   (\<forall>r. div_overflow T U R dividend divisor 0 = Inr (True, r) \<longrightarrow>
        trapping_div T U R dividend divisor = Inl Trap) \<and>
   (\<forall>r. mod_overflow T U R dividend divisor 0 = Inr (False, r) \<longrightarrow>
        trapping_mod T U R dividend divisor = Inr r) \<and>
   (\<forall>r. mod_overflow T U R dividend divisor 0 = Inr (True, r) \<longrightarrow>
        trapping_mod T U R dividend divisor = Inl Trap) \<and>
   (\<exists>b r. cast_truncate T R val 0 = Inr (b, r)) \<and>
   (\<exists>b r. div_overflow T U R dividend divisor 0 = Inr (b, r)) \<and>
   (\<exists>b r. mod_overflow T U R dividend divisor 0 = Inr (b, r))"
proof -
  have "\<exists>b r. cast_truncate T R val 0 = Inr (b, r)"
    by (intro probe_reports cast_truncate_reached)
  moreover have "\<exists>b r. div_overflow T U R dividend divisor 0 = Inr (b, r)"
    by (intro probe_reports div_overflow_reached)
  moreover have "\<exists>b r. mod_overflow T U R dividend divisor 0 = Inr (b, r)"
    by (intro probe_reports mod_overflow_reached)
  ultimately show ?thesis
    by (simp add: trapping_cast_def trapping_add_def trapping_sub_def trapping_mul_def
        trapping_div_def trapping_mod_def)
qed


theorem trapping_entry_points_witness:
  "trapping_cast int32_t int8_t 200 = Inl Trap \<and>
   trapping_add int32_t int32_t int8_t 100 100 = Inl Trap \<and>
   trapping_sub int32_t int32_t int8_t 100 (- 100) = Inl Trap \<and>
   trapping_mul int32_t int32_t int8_t 100 100 = Inl Trap \<and>
   trapping_div int32_t int32_t int8_t 7 0 = Inl Trap \<and>
   trapping_mod int32_t int32_t int8_t 7 0 = Inl Trap \<and>
   trapping_cast int32_t int8_t 20 = Inr 20 \<and>
   trapping_add int32_t int32_t int8_t 7 2 = Inr 9 \<and>
   trapping_sub int32_t int32_t int8_t 7 2 = Inr 5 \<and>
   trapping_mul int32_t int32_t int8_t 7 2 = Inr 14 \<and>
   trapping_div int32_t int32_t int8_t (- 7) 2 = Inr (- 3) \<and>
   trapping_mod int32_t int32_t int8_t (- 7) 2 = Inr (- 1)"
proof -
  have "cast_truncate int32_t int8_t 200 0 = Inr (True, 0)"
    and "cast_truncate int32_t int8_t 20 0 = Inr (False, 20)"
    and "div_overflow int32_t int32_t int8_t 7 0 0 = Inr (True, 0)"
    and "mod_overflow int32_t int32_t int8_t 7 0 0 = Inr (True, 0)"
    and "div_overflow int32_t int32_t int8_t (- 7) 2 0 = Inr (False, - 3)"
    and "mod_overflow int32_t int32_t int8_t (- 7) 2 0 = Inr (False, - 1)"
    by (simp_all add: cast_truncate_def div_overflow_def mod_overflow_def
        divide_min_by_negative_1_def op_defs range_defs ty_defs)
  moreover have "add_overflow int32_t int32_t int8_t 100 100 = (True, - 56)"
    and "sub_overflow int32_t int32_t int8_t 100 (- 100) = (True, - 56)"
    and "mul_overflow int32_t int32_t int8_t 100 100 = (True, 16)"
    and "add_overflow int32_t int32_t int8_t 7 2 = (False, 9)"
    and "sub_overflow int32_t int32_t int8_t 7 2 = (False, 5)"
    and "mul_overflow int32_t int32_t int8_t 7 2 = (False, 14)"
    by (simp_all add: add_overflow_def sub_overflow_def mul_overflow_def
        builtin_add_overflow_def builtin_sub_overflow_def builtin_mul_overflow_def
        range_defs ty_defs)
  ultimately show ?thesis
    using trapping_entry_points [of int32_t int8_t 200 int32_t 100 100 7 0]
      trapping_entry_points [of int32_t int8_t 200 int32_t 100 "- 100" 7 0]
      trapping_entry_points [of int32_t int8_t 20 int32_t 7 2 "- 7" 2]
    by simp
qed

section \<open>The operators of \<open>trapping<T>\<close>\<close>

subsection \<open>A mutating operator replaces the value or traps first\<close>




lemma bitwise_assign_ill_formed:
  "operator_or_assign T this x s = (Inl IllFormed, s)"
  "operator_and_assign T this x s = (Inl IllFormed, s)"
  "operator_xor_assign T this x s = (Inl IllFormed, s)"
  by (simp_all add: operator_or_assign_def operator_and_assign_def operator_xor_assign_def
      exec_defs)






subsection \<open>Unary minus\<close>

lemma static_cast_take_bit:
  "is_integral R \<Longrightarrow> static_cast R v =
     (if is_signed R then signed_take_bit (bits R - 1) v else take_bit (bits R) v)"
  by (auto simp: static_cast_def signed_take_bit_eq_take_bit_shift take_bit_eq_mod
      is_integral_def bits_def CHAR_BIT_def)

lemma bits_promote: "bits T \<le> bits (promote T)"
  by (simp add: promote_def bits_def)

lemma bits_pos: "is_integral T \<Longrightarrow> 0 < bits T"
  by (auto simp: is_integral_def bits_def CHAR_BIT_def)

lemma static_cast_after_promoted:
  assumes "is_integral T"
  shows "static_cast T (static_cast (promote T) k) = static_cast T k"
proof (cases "sizeof T < sizeof int_t")
  case False
  then show ?thesis
    using assms by (simp add: promote_def static_cast_id representable_static_cast)
next
  case True
  then have P: "promote T = int_t" by (simp add: promote_def)
  have "bits int_t = 32"
    by (simp add: bits_def CHAR_BIT_def int_t_def int32_t_def)
  then have wide: "static_cast int_t k = signed_take_bit 31 k"
    by (simp add: static_cast_take_bit is_integral_int_t is_signed_int_t)
  have "bits T \<le> 31"
    using True by (simp add: bits_def CHAR_BIT_def int_t_def int32_t_def)
  then have "bits T - 1 \<le> 31" and "bits T \<le> Suc 31"
    by simp_all
  then show ?thesis
    using assms
    by (simp add: P wide static_cast_take_bit take_bit_signed_take_bit min_def)
qed

lemma negate_op_stored:
  assumes "is_integral T" "representable T v"
  shows "static_cast T (negate_op T v) = static_cast T (- v)"
  using assms by (simp add: negate_op_def static_cast_promote_id static_cast_after_promoted)

lemma operator_neg_result:
  assumes "is_integral T" "representable T (s this)"
  shows "operator_neg T this s =
           (if is_signed T \<and> s this = numeric_min T then (Inl Trap, s)
            else (Inr this, s(this := static_cast T (- s this))))"
  using assms
  by (simp add: operator_neg_def exec_defs negate_op_stored cmp_eq_same_type
      representable_numeric_min)

lemma negation_representable:
  assumes "is_integral T" "is_signed T" "representable T v" "v \<noteq> numeric_min T"
  shows "representable T (- v)"
proof -
  have "numeric_min T = - numeric_max T - 1"
    using assms(1,2) by (auto simp: range_defs)
  then show ?thesis
    using assms(3,4) unfolding representable_def by linarith
qed

text \<open>
  C9. Unary minus changes its operand: for a value whose negation does not trap, the call
  writes the negated value (converted to \<open>T\<close>) into the object itself and returns a
  reference to that object; for signed \<open>T\<close> the written value is exactly \<open>- v\<close>.
\<close>

theorem operator_neg_mutates_operand:
  assumes "is_integral T" and "representable T (s this)"
    and "fst (operator_neg T this s) \<noteq> Inl Trap"
  shows "operator_neg T this s = (Inr this, s(this := static_cast T (- s this))) \<and>
         (is_signed T \<longrightarrow> static_cast T (- s this) = - s this)"
proof -
  have no_min: "\<not> (is_signed T \<and> s this = numeric_min T)"
    using assms by (auto simp: operator_neg_result)
  then have "is_signed T \<longrightarrow> static_cast T (- s this) = - s this"
    using assms(1,2) by (auto simp: static_cast_id negation_representable)
  then show ?thesis
    using no_min assms(1,2) by (simp add: operator_neg_result)
qed

theorem operator_neg_mutates_operand_witness:
  "operator_neg int8_t 3 ((\<lambda>_. 0)(3 := 5)) = (Inr 3, (\<lambda>_. 0)(3 := - 5)) \<and>
   operator_neg int32_t 0 (\<lambda>_. - 2147483647) = (Inr 0, (\<lambda>_. - 2147483647)(0 := 2147483647)) \<and>
   operator_neg uint8_t 0 (\<lambda>_. 5) = (Inr 0, (\<lambda>_. 5)(0 := 251))"
proof -
  have "fst (operator_neg int8_t 3 ((\<lambda>_. 0)(3 := 5))) \<noteq> Inl Trap"
    and "fst (operator_neg int32_t 0 (\<lambda>_. - 2147483647)) \<noteq> Inl Trap"
    and "fst (operator_neg uint8_t 0 (\<lambda>_. 5)) \<noteq> Inl Trap"
    by (simp_all add: operator_neg_def exec_defs op_defs range_defs ty_defs)
  then show ?thesis
    using operator_neg_mutates_operand [of int8_t "(\<lambda>_. 0)(3 := 5)" 3]
      operator_neg_mutates_operand [of int32_t "\<lambda>_. - 2147483647" 0]
      operator_neg_mutates_operand [of uint8_t "\<lambda>_. 5" 0]
    by (simp add: range_defs ty_defs)
qed

text \<open>
  C10. For unsigned \<open>T\<close> unary minus never traps and writes the negation modulo
  \<open>2 ^ bits T\<close>, that is \<open>(2 ^ bits T - v) mod 2 ^ bits T\<close>; negating 0 gives 0.
\<close>

theorem operator_neg_unsigned:
  assumes "is_integral T" and "\<not> is_signed T" and "representable T (s this)"
  shows "operator_neg T this s = (Inr this, s(this := (2 ^ bits T - s this) mod 2 ^ bits T)) \<and>
         operator_neg T this (s(this := 0)) = (Inr this, s(this := 0))"
proof -
  have "static_cast T (- k) = (2 ^ bits T - k) mod 2 ^ bits T" for k
    using assms(2) by (simp add: static_cast_def mod_diff_left_eq [symmetric, of "2 ^ bits T"])
  moreover have "static_cast T 0 = 0"
    using assms(2) by (simp add: static_cast_def)
  moreover have "representable T 0"
    using assms(2) by (simp add: representable_def numeric_min_def numeric_max_def)
  ultimately show ?thesis
    using assms operator_neg_result [of T s this] operator_neg_result [of T "s(this := 0)" this]
    by simp
qed

theorem operator_neg_unsigned_witness:
  "operator_neg uint8_t 0 (\<lambda>_. 5) = (Inr 0, (\<lambda>_. 5)(0 := 251)) \<and>
   operator_neg uint32_t 1 (\<lambda>_. 1) = (Inr 1, (\<lambda>_. 1)(1 := 4294967295)) \<and>
   operator_neg uint32_t 1 ((\<lambda>_. 1)(1 := 0)) = (Inr 1, (\<lambda>_. 1)(1 := 0))"
  using operator_neg_unsigned [of uint8_t "\<lambda>_. 5" 0]
    operator_neg_unsigned [of uint32_t "\<lambda>_. 1" 1]
  by (simp add: range_defs ty_defs)

subsection \<open>Bitwise operators\<close>

text \<open>
  C3. The claim is that \<^verbatim>\<open>a | b\<close>, \<^verbatim>\<open>a & b\<close> and \<^verbatim>\<open>a ^ b\<close> never trap and return
  the bitwise OR, AND and XOR of the contained values. In the source each of the three
  applies a compound assignment whose body reads \<^verbatim>\<open>x.value_\<close> of a \<^verbatim>\<open>const T& x\<close>,
  ill-formed for every integral \<open>T\<close>: none of them can be instantiated and none returns a
  value. Besides, the body of \<^verbatim>\<open>operator^\<close> applies \<^verbatim>\<open>|=\<close>, the assignment of
  \<^verbatim>\<open>operator|\<close>, and not \<^verbatim>\<open>^=\<close>.
\<close>

theorem binary_bitwise_ill_formed:
  "operator_or T a b = Inl IllFormed \<and>
   operator_and T a b = Inl IllFormed \<and>
   operator_xor T a b = Inl IllFormed"
  by (simp add: operator_or_def operator_and_def operator_xor_def on_copy_def
      bitwise_assign_ill_formed)

subsection \<open>Shifts\<close>

lemma cmp_lt_int_literal:
  assumes "is_integral U" "representable U b" "- 128 \<le> k" "k \<le> 127" "0 \<le> k \<or> is_signed U"
  shows "cmp_lt U b int_t k = (b < k)"
proof (cases "is_signed U")
  case True
  then have "is_signed (common_type U int_t)"
    by (simp add: is_signed_common_type is_signed_int_t)
  then show ?thesis
    using assms by (intro cmp_lt_exact) (simp_all add: is_integral_int_t representable_int_t_small)
next
  case False
  then have "0 \<le> b" "0 \<le> k"
    using assms by (simp_all add: unsigned_nonneg)
  then show ?thesis
    using assms by (intro cmp_lt_exact) (simp_all add: is_integral_int_t representable_int_t_small)
qed

lemma is_integral_size_t: "is_integral size_t"
  by (simp add: is_integral_def size_t_def uint64_t_def)

lemma common_type_size_t: "is_integral T \<Longrightarrow> common_type size_t T = size_t"
  by (auto simp: common_type_def usual_arithmetic_conversion_def promote_def is_integral_def
      size_t_def uint64_t_def int_t_def int32_t_def)

lemma static_cast_size_t_small: "0 \<le> k \<Longrightarrow> k \<le> 64 \<Longrightarrow> static_cast size_t k = k"
  by (simp add: static_cast_def bits_def CHAR_BIT_def size_t_def uint64_t_def)

lemma bits_le_64: "is_integral T \<Longrightarrow> int (bits T) \<le> 64" and bits_ge_8: "is_integral T \<Longrightarrow> 8 \<le> int (bits T)"
  by (auto simp: is_integral_def bits_def CHAR_BIT_def)

lemma bits_minus_1:
  assumes "is_integral T"
  shows "minus_op size_t (int (CHAR_BIT * sizeof T)) int_t 1 = int (bits T) - 1"
  using bits_le_64 [OF assms] bits_ge_8 [OF assms]
  by (simp add: minus_op_def common_type_size_t is_integral_int_t static_cast_size_t_small bits_def)

lemma bits_minus_x:
  assumes "is_integral T" "1 \<le> x" "x \<le> int (bits T) - 1"
  shows "minus_op size_t (int (CHAR_BIT * sizeof T)) T x = int (bits T) - x"
  using bits_le_64 [OF assms(1)] assms
  by (simp add: minus_op_def common_type_size_t static_cast_size_t_small bits_def)

lemma shift_out_of_range_exact:
  assumes "is_integral T" "representable T x"
  shows "shift_out_of_range T x = (x < 1 \<or> int (bits T) - 1 < x)"
proof (cases "x < 1")
  case True
  then show ?thesis
    using assms by (simp add: shift_out_of_range_def cmp_lt_int_literal)
next
  case False
  have k: "representable size_t (int (bits T) - 1)"
    using bits_le_64 [OF assms(1)] bits_ge_8 [OF assms(1)]
    by (simp add: representable_def numeric_min_def numeric_max_def bits_def CHAR_BIT_def
        size_t_def uint64_t_def)
  have "cmp_gt T x size_t (int (bits T) - 1) = (int (bits T) - 1 < x)"
    using assms False k bits_ge_8 [OF assms(1)]
    by (intro cmp_gt_exact) (simp_all add: is_integral_size_t)
  then show ?thesis
    using assms False
    unfolding shift_out_of_range_def bits_minus_1 [OF assms(1)]
    by (simp add: cmp_lt_int_literal)
qed

lemma shift_right_bounds:
  fixes v :: int
  shows "0 \<le> v \<Longrightarrow> v div 2 ^ n \<le> v"
    and "v < 0 \<Longrightarrow> v div 2 ^ n < 0"
    and "v < 0 \<Longrightarrow> v \<le> v div 2 ^ n"
proof -
  show "0 \<le> v \<Longrightarrow> v div 2 ^ n \<le> v"
    by (metis div_0 div_self int_div_le_self int_one_le_iff_zero_less
        nonneg1_imp_zdiv_pos_iff order_refl)
  show "v < 0 \<Longrightarrow> v div 2 ^ n < 0"
    by (metis zero_less_numeral pos_imp_zdiv_neg_iff zero_less_power)
  show "v < 0 \<Longrightarrow> v \<le> v div 2 ^ n"
    by (metis div_by_1 less_numeral_extra(1) one_le_numeral one_le_power zdiv_mono2_neg)
qed

lemma drop_bit_representable:
  assumes "representable T v"
  shows "representable T (drop_bit n v)"
proof (cases "0 \<le> v")
  case True
  then have "0 \<le> drop_bit n v" "drop_bit n v \<le> v"
    by (simp_all add: drop_bit_eq_div pos_imp_zdiv_nonneg_iff shift_right_bounds)
  then show ?thesis
    using assms numeric_min_nonpos [of T] unfolding representable_def by linarith
next
  case False
  then have "v \<le> drop_bit n v" "drop_bit n v < 0"
    by (simp_all add: drop_bit_eq_div shift_right_bounds)
  then show ?thesis
    using assms numeric_max_nonneg [of T] unfolding representable_def by linarith
qed

lemma operator_shr_assign_result:
  assumes "is_integral T" "representable T x" "representable T (s this)"
  shows "operator_shr_assign T this x s =
           (if x < 1 \<or> int (bits T) - 1 < x then (Inl Trap, s)
            else (Inr this, s(this := drop_bit (nat x) (s this))))"
  using assms
  by (simp add: operator_shr_assign_def exec_defs shift_out_of_range_exact shift_right_op_def
      static_cast_promote_id static_cast_id drop_bit_representable)

lemma operator_shl_assign_result:
  assumes "is_integral T" "representable T x" "representable T (s this)"
  shows "operator_shl_assign T this x s =
           (if x < 1 \<or> int (bits T) - 1 < x then (Inl Trap, s)
            else if static_cast T (push_bit (nat (int (bits T) - x)) x) < s this
              then (Inl Trap, s)
            else (Inr this, s(this := static_cast T (push_bit (nat x) (s this)))))"
proof (cases "x < 1 \<or> int (bits T) - 1 < x")
  case True
  then show ?thesis
    using assms by (simp add: operator_shl_assign_def exec_defs shift_out_of_range_exact)
next
  case False
  then have count: "minus_op size_t (int (CHAR_BIT * sizeof T)) T x = int (bits T) - x"
    using assms(1) by (intro bits_minus_x) simp_all
  have stored: "static_cast T (shift_left_op T a n) = static_cast T (push_bit (nat n) a)"
    if "representable T a" for a n
    using assms(1) that
    by (simp add: shift_left_op_def static_cast_promote_id static_cast_after_promoted)
  let ?y = "static_cast T (push_bit (nat (int (bits T) - x)) x)"
  have "cmp_gt T (s this) T ?y = (?y < s this)"
    using assms
    by (simp add: cmp_gt_def common_type_same static_cast_promote_id representable_static_cast)
  then show ?thesis
    using assms False
    unfolding operator_shl_assign_def count
    by (simp add: exec_defs shift_out_of_range_exact stored)
qed

text \<open>
  C2. Both shifts trap exactly when the amount is below 1 or above \<open>bits T - 1\<close>, and an
  in-range right shift stores the shifted value (\<open>operator_shr_assign_result\<close>). The claim
  that an in-range left shift traps exactly when a set bit would be shifted out fails:
  the source compares the value with \<^verbatim>\<open>x << (bits - x)\<close>. For \<^verbatim>\<open>uint32_t\<close> the value
  \<open>2 ^ 31\<close> shifted by 1 loses its only set bit, yet the call returns and stores 0; for
  \<^verbatim>\<open>int32_t\<close> the value 1 shifted by 1 loses nothing, yet the call traps.
\<close>

theorem operator_shl_assign_loses_bit:
  "operator_shl_assign uint32_t 0 1 (\<lambda>_. 2147483648) = (Inr 0, (\<lambda>_. 2147483648)(0 := 0)) \<and>
   representable uint32_t 2147483648 \<and> representable uint32_t 1 \<and>
   drop_bit 1 (numeric_max uint32_t) < 2147483648 \<and>
   numeric_max uint32_t < push_bit 1 2147483648 \<and>
   operator_shl_assign int32_t 0 1 (\<lambda>_. 1) = (Inl Trap, \<lambda>_. 1) \<and>
   push_bit 1 1 \<le> numeric_max int32_t"
  by (simp add: class_defs exec_defs op_defs range_defs ty_defs drop_bit_eq_div push_bit_eq_mult)

end
